theory Spec2Isabelle
  imports Main "HOL-Library.Word"
begin

unbundle bit_operations_syntax

section \<open>The loopback receiver of \<^verbatim>\<open>driver.c\<close>\<close>

text \<open>
  \<^verbatim>\<open>driver.c\<close> is one \<^verbatim>\<open>main\<close> routine: it initialises Winsock, creates a
  stream socket, connects to a fixed endpoint, prints whatever \<^verbatim>\<open>recv\<close> delivers and
  tears the connection down. Everything it does beyond returning an exit status is an
  interaction with the operating system, so the embedding passes an explicit state:
  the 256-byte receive buffer, the \<^verbatim>\<open>printf\<close> calls made so far, the library calls
  made so far (with their arguments and results), and what the peer still has in store.
  The answers of the operating system are the input of the model.
\<close>

subsection \<open>Constants of the program and of the Winsock headers\<close>

definition PORT :: int where
  "PORT = 12345"

definition BUFFER_SIZE :: nat where
  "BUFFER_SIZE = 256"

type_synonym SOCKET = "64 word"

text \<open>The values below are those of \<^verbatim>\<open>winsock2.h\<close>.\<close>

definition INVALID_SOCKET :: SOCKET where
  "INVALID_SOCKET = NOT 0"

definition SOCKET_ERROR :: int where
  "SOCKET_ERROR = - 1"

definition AF_INET :: int where
  "AF_INET = 2"

definition SOCK_STREAM :: int where
  "SOCK_STREAM = 1"

definition MAKEWORD :: "8 word \<Rightarrow> 8 word \<Rightarrow> 16 word" where
  "MAKEWORD lo hi = ucast lo OR push_bit 8 (ucast hi)"

subsection \<open>Addresses\<close>

text \<open>
  \<^verbatim>\<open>htons\<close> and \<^verbatim>\<open>inet_addr\<close> produce values in network byte order. Windows hosts are
  little-endian, so \<^verbatim>\<open>htons\<close> swaps the two bytes of its argument, and the word
  returned by \<^verbatim>\<open>inet_addr\<close> holds the first field of the address in its lowest byte.
  \<^verbatim>\<open>inet_addr\<close> is modelled for the four-field decimal notation the program uses;
  anything else yields \<^verbatim>\<open>INADDR_NONE\<close>.
\<close>

definition htons :: "16 word \<Rightarrow> 16 word" where
  "htons w = push_bit 8 w OR drop_bit 8 w"

definition ntohs :: "16 word \<Rightarrow> 16 word" where
  "ntohs w = push_bit 8 w OR drop_bit 8 w"

definition INADDR_NONE :: "32 word" where
  "INADDR_NONE = NOT 0"

definition is_digit :: "char \<Rightarrow> bool" where
  "is_digit c = (48 \<le> (of_char c :: nat) \<and> (of_char c :: nat) \<le> 57)"

fun decimal_acc :: "nat \<Rightarrow> string \<Rightarrow> nat option" where
  "decimal_acc n [] = Some n"
| "decimal_acc n (c # cs) =
     (if is_digit c then decimal_acc (10 * n + (of_char c - 48)) cs else None)"

definition decimal :: "string \<Rightarrow> nat option" where
  "decimal s = (if s = [] then None else decimal_acc 0 s)"

fun fields :: "string \<Rightarrow> string \<Rightarrow> string list" where
  "fields cur [] = [rev cur]"
| "fields cur (c # cs) =
     (if c = CHR ''.'' then rev cur # fields [] cs else fields (c # cur) cs)"

definition inet_addr :: "string \<Rightarrow> 32 word" where
  "inet_addr s =
     (case map decimal (fields [] s) of
        [Some a, Some b, Some c, Some d] \<Rightarrow>
          (if a \<le> 255 \<and> b \<le> 255 \<and> c \<le> 255 \<and> d \<le> 255
           then of_nat a OR push_bit 8 (of_nat b) OR push_bit 16 (of_nat c)
                  OR push_bit 24 (of_nat d)
           else INADDR_NONE)
      | _ \<Rightarrow> INADDR_NONE)"

text \<open>The four bytes of an address word in the order they lie in memory.\<close>

definition addr_bytes :: "32 word \<Rightarrow> nat list" where
  "addr_bytes w = map (\<lambda>i. unat (drop_bit (8 * i) w AND 255)) [0, 1, 2, 3]"

record sockaddr_in =
  sin_family :: int
  sin_addr :: "32 word"
  sin_port :: "16 word"

subsection \<open>The operating system as seen by the program\<close>

text \<open>
  What the peer does next on the connection: it delivers some bytes, closes the
  connection in an orderly way, or the connection fails. When nothing is left,
  \<^verbatim>\<open>recv\<close> blocks forever.
\<close>

datatype event = Chunk string | Close | Error

text \<open>
  The answers the operating system gives in one run. \<open>stack\<close> is what the memory of
  \<^verbatim>\<open>buffer\<close> holds when \<^verbatim>\<open>main\<close> starts: the array is not initialised.
\<close>

record os =
  WSAStartup_result :: int
  socket_result :: SOCKET
  connect_result :: int
  inbound :: "event list"
  stack :: string

text \<open>The library calls of the program, with their arguments and results.\<close>

datatype call =
    WSAStartup "16 word" int
  | Socket int int int SOCKET
  | Connect SOCKET sockaddr_in int
  | Recv SOCKET nat int int
  | Closesocket SOCKET
  | WSACleanup

text \<open>One \<^verbatim>\<open>printf\<close> call: its format string and what it wrote.\<close>

datatype printed = Printed (format: string) (written: string)

record state =
  buffer :: string
  out :: "printed list"
  calls :: "call list"
  net :: "event list"

text \<open>
  How a run ends: \<^verbatim>\<open>main\<close> returns an exit status, or a receive call never
  returns, or \<^verbatim>\<open>printf\<close> has read past the end of \<^verbatim>\<open>buffer\<close>, after which C
  defines nothing.
\<close>

datatype outcome = Returned int | Blocked | Undefined

subsection \<open>\<^verbatim>\<open>recv\<close> and \<^verbatim>\<open>printf\<close>\<close>

text \<open>
  \<^verbatim>\<open>recv\<close> on a stream socket: it copies at most \<open>len\<close> of the bytes that are
  available to the front of the buffer and returns their number; the bytes that did
  not fit stay queued. It returns 0 once the peer has closed and \<^verbatim>\<open>SOCKET_ERROR\<close> on
  failure. The result is the return value, the buffer and the remaining events;
  \<open>None\<close> is a call that never returns.
\<close>

fun recv :: "event list \<Rightarrow> string \<Rightarrow> nat \<Rightarrow> (int \<times> string \<times> event list) option" where
  "recv [] buf len = None"
| "recv (Chunk [] # es) buf len = recv es buf len"
| "recv (Chunk bs # es) buf len =
     (let got = take len bs; left = drop len bs
      in Some (int (length got), got @ drop (length got) buf,
               if left = [] then es else Chunk left # es))"
| "recv (Close # es) buf len = Some (0, buf, Close # es)"
| "recv (Error # es) buf len = Some (SOCKET_ERROR, buf, es)"

text \<open>
  The argument of a \<^verbatim>\<open>%s\<close> conversion is read up to the first NUL byte. An array
  that holds no NUL byte is read past its end, which C leaves undefined: \<open>None\<close>.
\<close>

definition NUL :: char where
  "NUL = CHR 0x00"

definition cstring :: "string \<Rightarrow> string option" where
  "cstring buf = (if NUL \<in> set buf then Some (takeWhile (\<lambda>c. c \<noteq> NUL) buf) else None)"

fun subst_s :: "string \<Rightarrow> string \<Rightarrow> string" where
  "subst_s (c # d # cs) arg =
     (if c = CHR ''%'' \<and> d = CHR ''s'' then arg @ subst_s cs arg
      else c # subst_s (d # cs) arg)"
| "subst_s cs arg = cs"

definition printf :: "string \<Rightarrow> state \<Rightarrow> state" where
  "printf fmt st = st\<lparr>out := out st @ [Printed fmt fmt]\<rparr>"

definition printf_s :: "string \<Rightarrow> string \<Rightarrow> state \<Rightarrow> state option" where
  "printf_s fmt arg st =
     (case cstring arg of
        None \<Rightarrow> None
      | Some s \<Rightarrow> Some (st\<lparr>out := out st @ [Printed fmt (subst_s fmt s)]\<rparr>))"

definition log_call :: "call \<Rightarrow> state \<Rightarrow> state" where
  "log_call c st = st\<lparr>calls := calls st @ [c]\<rparr>"

subsection \<open>The messages\<close>

definition msg_startup_failed :: string where
  "msg_startup_failed = ''WSAStartup failed.\<newline>''"

definition msg_socket_failed :: string where
  "msg_socket_failed = ''Socket creation failed.\<newline>''"

definition msg_connect_failed :: string where
  "msg_connect_failed = ''Connection failed.\<newline>''"

definition msg_connected :: string where
  "msg_connected = ''Connected to Gameboy emulator.\<newline>''"

definition msg_received :: string where
  "msg_received = ''Received from Gameboy emulator: %s\<newline>''"

definition msg_receive_failed :: string where
  "msg_receive_failed = ''Receive failed.\<newline>''"

subsection \<open>The receive loop\<close>

text \<open>
  \<^verbatim>\<open>while ((recv_size = recv(sock, buffer, BUFFER_SIZE, 0)) > 0) printf(..., buffer);\<close>
  The loop ends with the value of \<^verbatim>\<open>recv_size\<close> that was not positive, or it does
  not end: \<^verbatim>\<open>recv\<close> blocks, or \<^verbatim>\<open>printf\<close> runs past the end of the buffer.
\<close>

datatype loop_exit = Exited int | Recv_blocks | Printf_overrun

fun weight :: "event list \<Rightarrow> nat" where
  "weight [] = 0"
| "weight (Chunk bs # es) = Suc (length bs) + weight es"
| "weight (e # es) = Suc (weight es)"

function recv_loop :: "SOCKET \<Rightarrow> state \<Rightarrow> loop_exit \<times> state" where
  "recv_loop sock st =
     (case recv (net st) (buffer st) BUFFER_SIZE of
        None \<Rightarrow> (Recv_blocks, st)
      | Some (recv_size, buf, es) \<Rightarrow>
          (let st1 = log_call (Recv sock BUFFER_SIZE 0 recv_size)
                       (st\<lparr>buffer := buf, net := es\<rparr>)
           in if 0 < recv_size
              then (case printf_s msg_received (buffer st1) st1 of
                      None \<Rightarrow> (Printf_overrun, st1)
                    | Some st2 \<Rightarrow> recv_loop sock st2)
              else (Exited recv_size, st1)))"
  by pat_completeness auto
termination
proof (relation "measure (\<lambda>(sock, st). weight (net st))")
  show "wf (measure (\<lambda>(sock, st). weight (net st)))"
    by simp
next
  fix sock :: SOCKET and st :: state and x2 x1 x2a x1a x2b st1 st2
  assume r: "recv (net st) (buffer st) BUFFER_SIZE = Some x2"
    and x2: "(x1, x2a) = x2" "(x1a, x2b) = x2a"
    and st1: "st1 = log_call (Recv sock BUFFER_SIZE 0 x1) (st\<lparr>buffer := x1a, net := x2b\<rparr>)"
    and pos: "0 < x1"
    and pr: "printf_s msg_received (buffer st1) st1 = Some st2"
  have lighter: "recv es buf len = Some (n, buf', es') \<Longrightarrow> 0 < n \<Longrightarrow> weight es' < weight es"
    for es buf len n buf' es'
    by (induction es buf len rule: recv.induct)
       (auto simp: Let_def SOCKET_ERROR_def split: if_splits)
  from r x2 have "recv (net st) (buffer st) BUFFER_SIZE = Some (x1, x1a, x2b)"
    by simp
  from lighter [OF this pos] have "weight x2b < weight (net st)" .
  moreover from pr st1 have "net st2 = x2b"
    by (auto simp: printf_s_def log_call_def split: option.splits)
  ultimately show "((sock, st2), (sock, st)) \<in> measure (\<lambda>(sock, st). weight (net st))"
    by simp
qed

subsection \<open>\<^verbatim>\<open>main\<close>\<close>

text \<open>
  The address structure filled in before \<^verbatim>\<open>connect\<close>:
  \<^verbatim>\<open>server.sin_family = AF_INET; server.sin_addr.s_addr = inet_addr("127.0.0.1");\<close>
  \<^verbatim>\<open>server.sin_port = htons(PORT);\<close>
\<close>

definition server_addr :: sockaddr_in where
  "server_addr =
     \<lparr>sin_family = AF_INET, sin_addr = inet_addr ''127.0.0.1'', sin_port = htons (of_int PORT)\<rparr>"

text \<open>Nothing is printed or called yet; \<^verbatim>\<open>buffer\<close> holds what the stack held.\<close>

definition init_state :: "os \<Rightarrow> state" where
  "init_state w = \<lparr>buffer = stack w, out = [], calls = [], net = inbound w\<rparr>"

text \<open>
  The statements after the loop:
  \<^verbatim>\<open>if (recv_size == SOCKET_ERROR) printf("Receive failed.\n");\<close>
  \<^verbatim>\<open>closesocket(sock); WSACleanup(); return 0;\<close>
\<close>

definition teardown :: "SOCKET \<Rightarrow> int \<Rightarrow> state \<Rightarrow> outcome \<times> state" where
  "teardown sock recv_size st =
     (let st1 = (if recv_size = SOCKET_ERROR then printf msg_receive_failed st else st);
          st2 = log_call (Closesocket sock) st1;
          st3 = log_call WSACleanup st2
      in (Returned 0, st3))"

text \<open>
  \<^verbatim>\<open>main\<close>, in the order of the source: \<^verbatim>\<open>WSAStartup(MAKEWORD(2, 2), &wsaData) != 0\<close>,
  \<^verbatim>\<open>(sock = socket(AF_INET, SOCK_STREAM, 0)) == INVALID_SOCKET\<close> and
  \<^verbatim>\<open>connect(sock, (struct sockaddr *)&server, sizeof(server)) < 0\<close> each print their
  message and return 1; otherwise the connection message is printed and the loop
  runs. The result is how the run ends and the state it ends in.
\<close>

definition main :: "os \<Rightarrow> outcome \<times> state" where
  "main w =
     (let st0 = log_call (WSAStartup (MAKEWORD 2 2) (WSAStartup_result w)) (init_state w)
      in if WSAStartup_result w \<noteq> 0 then (Returned 1, printf msg_startup_failed st0)
      else
        let sock = socket_result w;
            st1 = log_call (Socket AF_INET SOCK_STREAM 0 sock) st0
        in if sock = INVALID_SOCKET then (Returned 1, printf msg_socket_failed st1)
        else
          let st2 = log_call (Connect sock server_addr (connect_result w)) st1
          in if connect_result w < 0 then (Returned 1, printf msg_connect_failed st2)
          else
            let st3 = printf msg_connected st2
            in case recv_loop sock st3 of
                 (Exited recv_size, st4) \<Rightarrow> teardown sock recv_size st4
               | (Recv_blocks, st4) \<Rightarrow> (Blocked, st4)
               | (Printf_overrun, st4) \<Rightarrow> (Undefined, st4))"

text \<open>
  The state in which the loop is entered: the three calls before it have succeeded
  and the connection message is printed.
\<close>

definition loop_entry :: "os \<Rightarrow> state" where
  "loop_entry w =
     \<lparr>buffer = stack w,
      out = [Printed msg_connected msg_connected],
      calls = [WSAStartup (MAKEWORD 2 2) (WSAStartup_result w),
               Socket AF_INET SOCK_STREAM 0 (socket_result w),
               Connect (socket_result w) server_addr (connect_result w)],
      net = inbound w\<rparr>"

text \<open>
  What the loop adds to the library calls and to the output, as a relation between
  the state at its entry, the values \<open>rs\<close> returned by its receive calls and the
  messages \<open>ds\<close> it printed.
\<close>

definition loop_trace :: "SOCKET \<Rightarrow> state \<Rightarrow> int list \<Rightarrow> printed list \<Rightarrow> bool" where
  "loop_trace sock st rs ds \<longleftrightarrow>
     calls (snd (recv_loop sock st)) = calls st @ map (Recv sock BUFFER_SIZE 0) rs
     \<and> out (snd (recv_loop sock st)) = out st @ ds
     \<and> (\<forall>n \<in> set rs. n \<le> int BUFFER_SIZE)
     \<and> (\<forall>d \<in> set ds. format d = msg_received)
     \<and> (case fst (recv_loop sock st) of
           Exited r \<Rightarrow> rs \<noteq> [] \<and> last rs = r \<and> \<not> 0 < r \<and> (\<forall>n \<in> set (butlast rs). 0 < n)
                        \<and> length rs = Suc (length ds)
         | Printf_overrun \<Rightarrow> (\<forall>n \<in> set rs. 0 < n) \<and> length rs = Suc (length ds)
         | Recv_blocks \<Rightarrow> (\<forall>n \<in> set rs. 0 < n) \<and> length rs = length ds)"

text \<open>The values returned by the receive calls of a run, in the order of the calls.\<close>

fun received :: "call list \<Rightarrow> int list" where
  "received [] = []"
| "received (Recv s len fl r # cs) = r # received cs"
| "received (c # cs) = received cs"

subsection \<open>Some runs\<close>

text \<open>Nobody listens on the port: \<^verbatim>\<open>connect\<close> fails.\<close>

definition no_listener :: os where
  "no_listener =
     \<lparr>WSAStartup_result = 0, socket_result = 3, connect_result = - 1,
      inbound = [], stack = replicate 256 NUL\<rparr>"

text \<open>Winsock cannot be initialised (the error is \<^verbatim>\<open>WSASYSNOTREADY\<close>).\<close>

definition no_winsock :: os where
  "no_winsock =
     \<lparr>WSAStartup_result = 10091, socket_result = 3, connect_result = 0,
      inbound = [Chunk ''hello'', Close], stack = replicate 256 NUL\<rparr>"

text \<open>No socket can be created.\<close>

definition no_socket :: os where
  "no_socket =
     \<lparr>WSAStartup_result = 0, socket_result = INVALID_SOCKET, connect_result = 0,
      inbound = [Chunk ''hello'', Close], stack = replicate 256 NUL\<rparr>"

text \<open>The peer accepts the connection and closes it without sending anything.\<close>

definition peer_closes_at_once :: os where
  "peer_closes_at_once =
     \<lparr>WSAStartup_result = 0, socket_result = 3, connect_result = 0,
      inbound = [Close], stack = replicate 256 NUL\<rparr>"

text \<open>The peer sends two bytes, then the connection fails.\<close>

definition connection_breaks :: os where
  "connection_breaks =
     \<lparr>WSAStartup_result = 0, socket_result = 3, connect_result = 0,
      inbound = [Chunk ''hi'', Error], stack = replicate 256 NUL\<rparr>"

text \<open>
  The peer sends \<^verbatim>\<open>hello\<close> and closes. The three runs differ in what the memory of
  \<^verbatim>\<open>buffer\<close> held before: NUL bytes only, two other bytes right behind the place
  of the five received ones, or no NUL byte at all.
\<close>

definition clean_hello :: os where
  "clean_hello =
     \<lparr>WSAStartup_result = 0, socket_result = 3, connect_result = 0,
      inbound = [Chunk ''hello'', Close], stack = replicate 256 NUL\<rparr>"

definition stale_hello :: os where
  "stale_hello =
     \<lparr>WSAStartup_result = 0, socket_result = 3, connect_result = 0,
      inbound = [Chunk ''hello'', Close],
      stack = replicate 5 NUL @ ''!!'' @ replicate 249 NUL\<rparr>"

definition garbage_hello :: os where
  "garbage_hello =
     \<lparr>WSAStartup_result = 0, socket_result = 3, connect_result = 0,
      inbound = [Chunk ''hello'', Close], stack = replicate 256 (CHR ''X'')\<rparr>"

text \<open>The peer sends 256 bytes, none of them NUL, and closes.\<close>

definition full_chunk :: os where
  "full_chunk =
     \<lparr>WSAStartup_result = 0, socket_result = 3, connect_result = 0,
      inbound = [Chunk (replicate 256 (CHR ''A'')), Close], stack = replicate 256 NUL\<rparr>"

text \<open>
  A state of the loop after the chunk \<^verbatim>\<open>hello world\<close> has been received into a
  buffer of NUL bytes; the next chunk is shorter.
\<close>

definition second_shorter :: state where
  "second_shorter =
     \<lparr>buffer = ''hello world'' @ replicate 245 NUL, out = [], calls = [],
      net = [Chunk ''hi'', Close]\<rparr>"

section \<open>Properties\<close>

subsection \<open>One iteration of the loop\<close>

declare recv_loop.simps [simp del]

lemma recv_le_len: "recv es buf len = Some (n, buf', es') \<Longrightarrow> n \<le> int len"
  by (induction es buf len rule: recv.induct)
     (auto simp: Let_def SOCKET_ERROR_def split: if_splits)

lemma recv_loop_unfold_blocks:
  "recv (net st) (buffer st) BUFFER_SIZE = None \<Longrightarrow> recv_loop sock st = (Recv_blocks, st)"
  by (subst recv_loop.simps) simp

lemma recv_loop_unfold_exit:
  "recv (net st) (buffer st) BUFFER_SIZE = Some (n, buf, es) \<Longrightarrow> \<not> 0 < n \<Longrightarrow>
   recv_loop sock st =
     (Exited n, st\<lparr>buffer := buf, net := es, calls := calls st @ [Recv sock BUFFER_SIZE 0 n]\<rparr>)"
  by (subst recv_loop.simps) (simp add: log_call_def)

lemma recv_loop_unfold_overrun:
  "recv (net st) (buffer st) BUFFER_SIZE = Some (n, buf, es) \<Longrightarrow> 0 < n \<Longrightarrow>
   cstring buf = None \<Longrightarrow>
   recv_loop sock st =
     (Printf_overrun,
      st\<lparr>buffer := buf, net := es, calls := calls st @ [Recv sock BUFFER_SIZE 0 n]\<rparr>)"
  by (subst recv_loop.simps) (simp add: printf_s_def log_call_def)

lemma recv_loop_unfold_data:
  "recv (net st) (buffer st) BUFFER_SIZE = Some (n, buf, es) \<Longrightarrow> 0 < n \<Longrightarrow>
   cstring buf = Some s \<Longrightarrow>
   recv_loop sock st =
     recv_loop sock
       (st\<lparr>buffer := buf, net := es,
           calls := calls st @ [Recv sock BUFFER_SIZE 0 n],
           out := out st @ [Printed msg_received (subst_s msg_received s)]\<rparr>)"
  by (subst recv_loop.simps) (simp add: printf_s_def log_call_def)

lemma recv_loop_cases [consumes 0, case_names blocks exit overrun data]:
  fixes st :: state
  obtains "recv (net st) (buffer st) BUFFER_SIZE = None"
  | n buf es where "recv (net st) (buffer st) BUFFER_SIZE = Some (n, buf, es)" "\<not> 0 < n"
  | n buf es where "recv (net st) (buffer st) BUFFER_SIZE = Some (n, buf, es)" "0 < n"
      "cstring buf = None"
  | n buf es s where "recv (net st) (buffer st) BUFFER_SIZE = Some (n, buf, es)" "0 < n"
      "cstring buf = Some s"
  by (cases "recv (net st) (buffer st) BUFFER_SIZE") (auto, metis option.exhaust)

text \<open>Induction along the iterations, with one case for each way an iteration can go.\<close>

lemma recv_loop_induct [consumes 0, case_names blocks exit overrun data]:
  fixes P :: "SOCKET \<Rightarrow> state \<Rightarrow> bool"
  assumes "\<And>sock st. recv (net st) (buffer st) BUFFER_SIZE = None \<Longrightarrow> P sock st"
    and "\<And>sock st n buf es. recv (net st) (buffer st) BUFFER_SIZE = Some (n, buf, es) \<Longrightarrow>
           \<not> 0 < n \<Longrightarrow> P sock st"
    and "\<And>sock st n buf es. recv (net st) (buffer st) BUFFER_SIZE = Some (n, buf, es) \<Longrightarrow>
           0 < n \<Longrightarrow> cstring buf = None \<Longrightarrow> P sock st"
    and "\<And>sock st n buf es s. recv (net st) (buffer st) BUFFER_SIZE = Some (n, buf, es) \<Longrightarrow>
           0 < n \<Longrightarrow> cstring buf = Some s \<Longrightarrow>
           P sock (st\<lparr>buffer := buf, net := es,
                 calls := calls st @ [Recv sock BUFFER_SIZE 0 n],
                 out := out st @ [Printed msg_received (subst_s msg_received s)]\<rparr>) \<Longrightarrow>
           P sock st"
  shows "P sock st"
proof (induction sock st rule: recv_loop.induct)
  case (1 sock st)
  show ?case
  proof (cases rule: recv_loop_cases [of st])
    case blocks
    then show ?thesis by (rule assms(1))
  next
    case (exit n buf es)
    then show ?thesis by (rule assms(2))
  next
    case (overrun n buf es)
    then show ?thesis by (rule assms(3))
  next
    case (data n buf es s)
    let ?st = "st\<lparr>buffer := buf, net := es,
                 calls := calls st @ [Recv sock BUFFER_SIZE 0 n],
                 out := out st @ [Printed msg_received (subst_s msg_received s)]\<rparr>"
    have "P sock ?st"
      using "1.IH" [OF data(1) refl refl refl data(2), of ?st] data
      by (simp add: printf_s_def log_call_def)
    with data show ?thesis by (rule assms(4))
  qed
qed

lemma recv_loop_trace: "\<exists>rs ds. loop_trace sock st rs ds"
proof (induction sock st rule: recv_loop_induct)
  case (blocks sock st)
  then have "loop_trace sock st [] []"
    by (simp add: loop_trace_def recv_loop_unfold_blocks)
  then show ?case by blast
next
  case (exit sock st n buf es)
  have "n \<le> int BUFFER_SIZE"
    using exit(1) by (rule recv_le_len)
  then have "loop_trace sock st [n] []"
    using exit by (simp add: loop_trace_def recv_loop_unfold_exit)
  then show ?case by blast
next
  case (overrun sock st n buf es)
  have "n \<le> int BUFFER_SIZE"
    using overrun(1) by (rule recv_le_len)
  then have "loop_trace sock st [n] []"
    using overrun by (simp add: loop_trace_def recv_loop_unfold_overrun)
  then show ?case by blast
next
  case (data sock st n buf es s)
  let ?d = "Printed msg_received (subst_s msg_received s)"
  let ?st = "st\<lparr>buffer := buf, net := es,
                 calls := calls st @ [Recv sock BUFFER_SIZE 0 n], out := out st @ [?d]\<rparr>"
  from data(4) obtain rs ds where t: "loop_trace sock ?st rs ds"
    by blast
  have eq: "recv_loop sock st = recv_loop sock ?st"
    using data(1-3) by (rule recv_loop_unfold_data)
  have n: "n \<le> int BUFFER_SIZE"
    using data(1) by (rule recv_le_len)
  have "loop_trace sock st (n # rs) (?d # ds)"
    using t n data(2) unfolding loop_trace_def eq
    by (auto split: loop_exit.splits)
  then show ?case by blast
qed

subsection \<open>The paths through \<^verbatim>\<open>main\<close>\<close>

lemma main_startup_failed:
  "WSAStartup_result w \<noteq> 0 \<Longrightarrow>
   main w = (Returned 1,
     \<lparr>buffer = stack w, out = [Printed msg_startup_failed msg_startup_failed],
      calls = [WSAStartup (MAKEWORD 2 2) (WSAStartup_result w)], net = inbound w\<rparr>)"
  by (simp add: main_def init_state_def log_call_def printf_def)

lemma main_socket_failed:
  "WSAStartup_result w = 0 \<Longrightarrow> socket_result w = INVALID_SOCKET \<Longrightarrow>
   main w = (Returned 1,
     \<lparr>buffer = stack w, out = [Printed msg_socket_failed msg_socket_failed],
      calls = [WSAStartup (MAKEWORD 2 2) 0, Socket AF_INET SOCK_STREAM 0 INVALID_SOCKET],
      net = inbound w\<rparr>)"
  by (simp add: main_def init_state_def log_call_def printf_def)

lemma main_connect_failed:
  "WSAStartup_result w = 0 \<Longrightarrow> socket_result w \<noteq> INVALID_SOCKET \<Longrightarrow>
   connect_result w < 0 \<Longrightarrow>
   main w = (Returned 1,
     \<lparr>buffer = stack w, out = [Printed msg_connect_failed msg_connect_failed],
      calls = [WSAStartup (MAKEWORD 2 2) 0, Socket AF_INET SOCK_STREAM 0 (socket_result w),
               Connect (socket_result w) server_addr (connect_result w)],
      net = inbound w\<rparr>)"
  by (simp add: main_def init_state_def log_call_def printf_def Let_def)

lemma main_connected:
  "WSAStartup_result w = 0 \<Longrightarrow> socket_result w \<noteq> INVALID_SOCKET \<Longrightarrow>
   \<not> connect_result w < 0 \<Longrightarrow>
   main w =
     (case recv_loop (socket_result w) (loop_entry w) of
        (Exited recv_size, st) \<Rightarrow> teardown (socket_result w) recv_size st
      | (Recv_blocks, st) \<Rightarrow> (Blocked, st)
      | (Printf_overrun, st) \<Rightarrow> (Undefined, st))"
  by (simp add: main_def init_state_def log_call_def printf_def Let_def loop_entry_def)

lemma teardown_result:
  "teardown sock r st =
     (Returned 0,
      st\<lparr>out := out st @ (if r = SOCKET_ERROR then [Printed msg_receive_failed msg_receive_failed] else []),
         calls := calls st @ [Closesocket sock, WSACleanup]\<rparr>)"
  by (simp add: teardown_def printf_def log_call_def)

text \<open>The library calls of a run, for each way the run can go.\<close>

lemma main_calls:
  "calls (snd (main w)) = take 1 (calls (loop_entry w))
   \<or> calls (snd (main w)) = take 2 (calls (loop_entry w))
   \<or> (\<exists>rs. calls (snd (main w)) =
          calls (loop_entry w) @ map (Recv (socket_result w) BUFFER_SIZE 0) rs)
   \<or> (\<exists>rs. rs \<noteq> [] \<and> calls (snd (main w)) =
          calls (loop_entry w) @ map (Recv (socket_result w) BUFFER_SIZE 0) rs
            @ [Closesocket (socket_result w), WSACleanup])"
proof -
  consider "WSAStartup_result w \<noteq> 0"
    | "WSAStartup_result w = 0" "socket_result w = INVALID_SOCKET"
    | "WSAStartup_result w = 0" "socket_result w \<noteq> INVALID_SOCKET" "connect_result w < 0"
    | "WSAStartup_result w = 0" "socket_result w \<noteq> INVALID_SOCKET" "\<not> connect_result w < 0"
    by blast
  then show ?thesis
  proof cases
    case 1
    then show ?thesis by (simp add: main_startup_failed loop_entry_def)
  next
    case 2
    then show ?thesis by (simp add: main_socket_failed loop_entry_def)
  next
    case 3
    then have "calls (snd (main w)) =
        calls (loop_entry w) @ map (Recv (socket_result w) BUFFER_SIZE 0) []"
      by (simp add: main_connect_failed loop_entry_def)
    then show ?thesis by blast
  next
    case 4
    obtain rs ds where t: "loop_trace (socket_result w) (loop_entry w) rs ds"
      using recv_loop_trace by blast
    obtain res st where r: "recv_loop (socket_result w) (loop_entry w) = (res, st)"
      by (cases "recv_loop (socket_result w) (loop_entry w)")
    from t r have c: "calls st =
        calls (loop_entry w) @ map (Recv (socket_result w) BUFFER_SIZE 0) rs"
      by (simp add: loop_trace_def)
    from 4 r have m: "main w = (case res of Exited n \<Rightarrow> teardown (socket_result w) n st
        | Recv_blocks \<Rightarrow> (Blocked, st) | Printf_overrun \<Rightarrow> (Undefined, st))"
      by (simp add: main_connected)
    show ?thesis
    proof (cases res)
      case (Exited n)
      with t r have "rs \<noteq> []"
        by (simp add: loop_trace_def)
      moreover from m c Exited have "calls (snd (main w)) =
          calls (loop_entry w) @ map (Recv (socket_result w) BUFFER_SIZE 0) rs
            @ [Closesocket (socket_result w), WSACleanup]"
        by (simp add: teardown_result)
      ultimately show ?thesis by blast
    next
      case Recv_blocks
      with m c have "calls (snd (main w)) =
          calls (loop_entry w) @ map (Recv (socket_result w) BUFFER_SIZE 0) rs"
        by simp
      then show ?thesis by blast
    next
      case Printf_overrun
      with m c have "calls (snd (main w)) =
          calls (loop_entry w) @ map (Recv (socket_result w) BUFFER_SIZE 0) rs"
        by simp
      then show ?thesis by blast
    qed
  qed
qed

text \<open>
  A receive call that returns no positive count is the last one: the loop ends,
  the teardown runs and \<^verbatim>\<open>main\<close> returns 0. The receive-error message is printed when
  the value returned is \<^verbatim>\<open>SOCKET_ERROR\<close>, and only then.
\<close>

lemma last_receive:
  assumes "Recv s len fl r \<in> set (calls (snd (main w)))" and "\<not> 0 < r"
  shows "fst (main w) = Returned 0
    \<and> (\<exists>cs. calls (snd (main w)) =
          cs @ [Recv (socket_result w) BUFFER_SIZE 0 r, Closesocket (socket_result w), WSACleanup])
    \<and> (\<exists>ds. out (snd (main w)) =
          Printed msg_connected msg_connected # ds
            @ (if r = SOCKET_ERROR then [Printed msg_receive_failed msg_receive_failed] else [])
          \<and> (\<forall>d \<in> set ds. format d = msg_received))"
proof -
  consider "WSAStartup_result w \<noteq> 0"
    | "WSAStartup_result w = 0" "socket_result w = INVALID_SOCKET"
    | "WSAStartup_result w = 0" "socket_result w \<noteq> INVALID_SOCKET" "connect_result w < 0"
    | "WSAStartup_result w = 0" "socket_result w \<noteq> INVALID_SOCKET" "\<not> connect_result w < 0"
    by blast
  then show ?thesis
  proof cases
    case 1
    with assms(1) show ?thesis by (simp add: main_startup_failed)
  next
    case 2
    with assms(1) show ?thesis by (simp add: main_socket_failed)
  next
    case 3
    with assms(1) show ?thesis by (simp add: main_connect_failed)
  next
    case 4
    let ?sock = "socket_result w"
    obtain rs ds where t: "loop_trace ?sock (loop_entry w) rs ds"
      using recv_loop_trace by blast
    obtain res st where l: "recv_loop ?sock (loop_entry w) = (res, st)"
      by (cases "recv_loop ?sock (loop_entry w)")
    from t l have c: "calls st = calls (loop_entry w) @ map (Recv ?sock BUFFER_SIZE 0) rs"
      and o: "out st = Printed msg_connected msg_connected # ds"
      and d: "\<forall>d \<in> set ds. format d = msg_received"
      by (simp_all add: loop_trace_def loop_entry_def)
    from 4 l have m: "main w = (case res of Exited n \<Rightarrow> teardown ?sock n st
        | Recv_blocks \<Rightarrow> (Blocked, st) | Printf_overrun \<Rightarrow> (Undefined, st))"
      by (simp add: main_connected)
    have "Recv s len fl r \<in> set (calls st)"
      using assms(1) m by (cases res) (auto simp: teardown_result)
    with c have r: "r \<in> set rs"
      by (auto simp: loop_entry_def)
    show ?thesis
    proof (cases res)
      case (Exited n)
      with t l have e: "rs \<noteq> []" "last rs = n" "\<forall>k \<in> set (butlast rs). 0 < k"
        by (simp_all add: loop_trace_def)
      from e(1) have rs: "rs = butlast rs @ [n]"
        using e(2) by (metis append_butlast_last_id)
      with r e(3) assms(2) have "r = n"
        by (metis Un_iff empty_iff empty_set insert_iff list.simps(15) set_append)
      with rs have "map (Recv ?sock BUFFER_SIZE 0) rs
          = map (Recv ?sock BUFFER_SIZE 0) (butlast rs) @ [Recv ?sock BUFFER_SIZE 0 r]"
        by (metis list.simps(8) list.simps(9) map_append)
      with c m o d Exited \<open>r = n\<close> show ?thesis
        by (simp add: teardown_result)
    next
      case Recv_blocks
      with t l r assms(2) show ?thesis
        by (auto simp: loop_trace_def)
    next
      case Printf_overrun
      with t l r assms(2) show ?thesis
        by (auto simp: loop_trace_def)
    qed
  qed
qed


lemma server_addr_endpoint:
  "sin_family server_addr = AF_INET \<and> addr_bytes (sin_addr server_addr) = [127, 0, 0, 1]
   \<and> ntohs (sin_port server_addr) = 12345"
  by code_simp

lemma subst_received:
  "subst_s msg_received s = ''Received from Gameboy emulator: '' @ s @ ''\<newline>''"
  by (simp add: msg_received_def)

subsection \<open>Runs in which \<^verbatim>\<open>printf\<close> stays inside the array\<close>

text \<open>What a receive call returns and leaves queued does not depend on the buffer.\<close>

lemma recv_blocks_any_buffer:
  "recv es b1 len = None \<Longrightarrow> recv es b2 len = None"
  by (induction es b1 len rule: recv.induct) (auto simp: Let_def)

lemma recv_returns_any_buffer:
  "recv es b1 len = Some (n, b, es') \<Longrightarrow> \<exists>b'. recv es b2 len = Some (n, b', es')"
  by (induction es b1 len rule: recv.induct) (auto simp: Let_def)

lemma formats_received:
  "\<forall>d \<in> set ds. format d = msg_received \<Longrightarrow> map format ds = replicate (length ds) msg_received"
  by (induction ds) auto

lemma loop_kinds:
  fixes st1 st2 :: state
  assumes "net st1 = net st2"
    and "fst (recv_loop sock st1) \<noteq> Printf_overrun"
    and "fst (recv_loop sock st2) \<noteq> Printf_overrun"
  shows "fst (recv_loop sock st1) = fst (recv_loop sock st2)
    \<and> (\<exists>k. length (out (snd (recv_loop sock st1))) = length (out st1) + k
           \<and> length (out (snd (recv_loop sock st2))) = length (out st2) + k)"
  using assms
proof (induction sock st1 arbitrary: st2 rule: recv_loop_induct)
  case (blocks sock st)
  from blocks(1,2) have "recv (net st2) (buffer st2) BUFFER_SIZE = None"
    by (metis recv_blocks_any_buffer)
  with blocks(1) show ?case
    by (simp add: recv_loop_unfold_blocks)
next
  case (exit sock st n buf es)
  from exit(1,3) obtain b' where "recv (net st2) (buffer st2) BUFFER_SIZE = Some (n, b', es)"
    by (metis recv_returns_any_buffer)
  with exit(1,2) show ?case
    by (simp add: recv_loop_unfold_exit)
next
  case (overrun sock st n buf es)
  then show ?case
    by (simp add: recv_loop_unfold_overrun)
next
  case (data sock st n buf es s)
  let ?st = "st\<lparr>buffer := buf, net := es,
                 calls := calls st @ [Recv sock BUFFER_SIZE 0 n],
                 out := out st @ [Printed msg_received (subst_s msg_received s)]\<rparr>"
  have eq1: "recv_loop sock st = recv_loop sock ?st"
    using data(1-3) by (rule recv_loop_unfold_data)
  from data(1,5) obtain b' where r2: "recv (net st2) (buffer st2) BUFFER_SIZE = Some (n, b', es)"
    by (metis recv_returns_any_buffer)
  show ?case
  proof (cases "cstring b'")
    case None
    with r2 data(2) have "fst (recv_loop sock st2) = Printf_overrun"
      by (simp add: recv_loop_unfold_overrun)
    with data(7) show ?thesis by simp
  next
    case (Some s2)
    let ?st2 = "st2\<lparr>buffer := b', net := es,
                 calls := calls st2 @ [Recv sock BUFFER_SIZE 0 n],
                 out := out st2 @ [Printed msg_received (subst_s msg_received s2)]\<rparr>"
    have eq2: "recv_loop sock st2 = recv_loop sock ?st2"
      using r2 data(2) Some by (rule recv_loop_unfold_data)
    have "fst (recv_loop sock ?st) = fst (recv_loop sock ?st2)
      \<and> (\<exists>k. length (out (snd (recv_loop sock ?st))) = length (out ?st) + k
           \<and> length (out (snd (recv_loop sock ?st2))) = length (out ?st2) + k)"
      using data(6,7) unfolding eq1 eq2 by (intro data(4)) simp_all
    then obtain k where "fst (recv_loop sock ?st) = fst (recv_loop sock ?st2)"
      "length (out (snd (recv_loop sock ?st))) = length (out st) + Suc k"
      "length (out (snd (recv_loop sock ?st2))) = length (out st2) + Suc k"
      by auto
    then show ?thesis
      unfolding eq1 eq2 by blast
  qed
qed


text \<open>The exit status and the kinds of the messages of a run that enters the loop.\<close>

lemma connected_run:
  assumes "WSAStartup_result w = 0" and "socket_result w \<noteq> INVALID_SOCKET"
    and "\<not> connect_result w < 0"
  obtains k where "length (out (snd (recv_loop (socket_result w) (loop_entry w)))) = 1 + k"
    and "fst (main w) =
        (case fst (recv_loop (socket_result w) (loop_entry w)) of
           Exited n \<Rightarrow> Returned 0 | Recv_blocks \<Rightarrow> Blocked | Printf_overrun \<Rightarrow> Undefined)"
    and "map format (out (snd (main w))) =
        msg_connected # replicate k msg_received
          @ (if fst (recv_loop (socket_result w) (loop_entry w)) = Exited SOCKET_ERROR
             then [msg_receive_failed] else [])"
proof -
  let ?sock = "socket_result w"
  obtain rs ds where t: "loop_trace ?sock (loop_entry w) rs ds"
    using recv_loop_trace by blast
  obtain res st where l: "recv_loop ?sock (loop_entry w) = (res, st)"
    by (cases "recv_loop ?sock (loop_entry w)")
  from t l have o: "out st = Printed msg_connected msg_connected # ds"
    and d: "\<forall>d \<in> set ds. format d = msg_received"
    by (simp_all add: loop_trace_def loop_entry_def)
  from d have f: "map format ds = replicate (length ds) msg_received"
    by (rule formats_received)
  from assms l have m: "main w = (case res of Exited n \<Rightarrow> teardown ?sock n st
      | Recv_blocks \<Rightarrow> (Blocked, st) | Printf_overrun \<Rightarrow> (Undefined, st))"
    by (simp add: main_connected)
  show ?thesis
  proof (rule that [of "length ds"])
    show "length (out (snd (recv_loop ?sock (loop_entry w)))) = 1 + length ds"
      using l o by simp
    show "fst (main w) =
        (case fst (recv_loop ?sock (loop_entry w)) of
           Exited n \<Rightarrow> Returned 0 | Recv_blocks \<Rightarrow> Blocked | Printf_overrun \<Rightarrow> Undefined)"
      using m l by (cases res) (simp_all add: teardown_result)
    show "map format (out (snd (main w))) =
        msg_connected # replicate (length ds) msg_received
          @ (if fst (recv_loop ?sock (loop_entry w)) = Exited SOCKET_ERROR
             then [msg_receive_failed] else [])"
      using m l o f by (cases res) (simp_all add: teardown_result)
  qed
qed

text \<open>
  As long as \<^verbatim>\<open>printf\<close> stays inside the array in both runs, the exit status and the
  kinds of the messages are the same for the same answers of the operating system,
  whatever the array held at the start.
\<close>

lemma kinds_determined_by_answers:
  assumes "WSAStartup_result w1 = WSAStartup_result w2"
    and "socket_result w1 = socket_result w2"
    and "connect_result w1 = connect_result w2"
    and "inbound w1 = inbound w2"
    and "fst (main w1) \<noteq> Undefined" and "fst (main w2) \<noteq> Undefined"
  shows "fst (main w1) = fst (main w2)
    \<and> map format (out (snd (main w1))) = map format (out (snd (main w2)))"
proof -
  consider "WSAStartup_result w1 \<noteq> 0"
    | "WSAStartup_result w1 = 0" "socket_result w1 = INVALID_SOCKET"
    | "WSAStartup_result w1 = 0" "socket_result w1 \<noteq> INVALID_SOCKET" "connect_result w1 < 0"
    | "WSAStartup_result w1 = 0" "socket_result w1 \<noteq> INVALID_SOCKET" "\<not> connect_result w1 < 0"
    by blast
  then show ?thesis
  proof cases
    case 1
    with assms(1) show ?thesis by (simp add: main_startup_failed)
  next
    case 2
    with assms(1,2) show ?thesis by (simp add: main_socket_failed)
  next
    case 3
    with assms(1-3) show ?thesis by (simp add: main_connect_failed)
  next
    case 4
    let ?sock = "socket_result w1"
    let ?l1 = "recv_loop ?sock (loop_entry w1)" and ?l2 = "recv_loop ?sock (loop_entry w2)"
    from 4 assms(1-3) have c2: "WSAStartup_result w2 = 0" "socket_result w2 \<noteq> INVALID_SOCKET"
      "\<not> connect_result w2 < 0"
      by simp_all
    obtain k1 where r1:
      "length (out (snd ?l1)) = 1 + k1"
      "fst (main w1) = (case fst ?l1 of
           Exited n \<Rightarrow> Returned 0 | Recv_blocks \<Rightarrow> Blocked | Printf_overrun \<Rightarrow> Undefined)"
      "map format (out (snd (main w1))) = msg_connected # replicate k1 msg_received
          @ (if fst ?l1 = Exited SOCKET_ERROR then [msg_receive_failed] else [])"
      using connected_run [OF 4] .
    obtain k2 where r2:
      "length (out (snd ?l2)) = 1 + k2"
      "fst (main w2) = (case fst ?l2 of
           Exited n \<Rightarrow> Returned 0 | Recv_blocks \<Rightarrow> Blocked | Printf_overrun \<Rightarrow> Undefined)"
      "map format (out (snd (main w2))) = msg_connected # replicate k2 msg_received
          @ (if fst ?l2 = Exited SOCKET_ERROR then [msg_receive_failed] else [])"
      using connected_run [OF c2] unfolding assms(2) [symmetric] .
    have n1: "fst ?l1 \<noteq> Printf_overrun"
      using assms(5) r1(2) by auto
    have n2: "fst ?l2 \<noteq> Printf_overrun"
      using assms(6) r2(2) by auto
    have "net (loop_entry w1) = net (loop_entry w2)"
      using assms(4) by (simp add: loop_entry_def)
    from loop_kinds [OF this n1 n2] obtain k where
      e: "fst ?l1 = fst ?l2" and "length (out (snd ?l1)) = length (out (loop_entry w1)) + k"
      and "length (out (snd ?l2)) = length (out (loop_entry w2)) + k"
      by blast
    with r1(1) r2(1) have "k1 = k2"
      by (simp add: loop_entry_def)
    with e r1(2,3) r2(2,3) show ?thesis
      by simp
  qed
qed

text \<open>
  In a run that returns 0, every receive call asks for 256 bytes and returns at most
  256; each but the last returns a positive count, and there is one data message for
  each of them.
\<close>

lemma returning_run_messages:
  assumes "fst (main w) = Returned 0"
  obtains rs r ds where
    "calls (snd (main w)) =
       calls (loop_entry w) @ map (Recv (socket_result w) BUFFER_SIZE 0) (rs @ [r])
         @ [Closesocket (socket_result w), WSACleanup]"
    and "\<forall>n \<in> set rs. 0 < n \<and> n \<le> int BUFFER_SIZE" and "\<not> 0 < r"
    and "out (snd (main w)) =
       Printed msg_connected msg_connected # ds
         @ (if r = SOCKET_ERROR then [Printed msg_receive_failed msg_receive_failed] else [])"
    and "length ds = length rs" and "\<forall>d \<in> set ds. format d = msg_received"
proof -
  consider "WSAStartup_result w \<noteq> 0"
    | "WSAStartup_result w = 0" "socket_result w = INVALID_SOCKET"
    | "WSAStartup_result w = 0" "socket_result w \<noteq> INVALID_SOCKET" "connect_result w < 0"
    | "WSAStartup_result w = 0" "socket_result w \<noteq> INVALID_SOCKET" "\<not> connect_result w < 0"
    by blast
  then show ?thesis
  proof cases
    case 1
    with assms show ?thesis by (simp add: main_startup_failed)
  next
    case 2
    with assms show ?thesis by (simp add: main_socket_failed)
  next
    case 3
    with assms show ?thesis by (simp add: main_connect_failed)
  next
    case 4
    let ?sock = "socket_result w"
    obtain rs ds where t: "loop_trace ?sock (loop_entry w) rs ds"
      using recv_loop_trace by blast
    obtain res st where l: "recv_loop ?sock (loop_entry w) = (res, st)"
      by (cases "recv_loop ?sock (loop_entry w)")
    from 4 l have m: "main w = (case res of Exited n \<Rightarrow> teardown ?sock n st
        | Recv_blocks \<Rightarrow> (Blocked, st) | Printf_overrun \<Rightarrow> (Undefined, st))"
      by (simp add: main_connected)
    with assms obtain r where res: "res = Exited r"
      by (cases res) simp_all
    from t l res have c: "calls st = calls (loop_entry w) @ map (Recv ?sock BUFFER_SIZE 0) rs"
      and o: "out st = Printed msg_connected msg_connected # ds"
      and d: "\<forall>d \<in> set ds. format d = msg_received"
      and b: "\<forall>n \<in> set rs. n \<le> int BUFFER_SIZE"
      and e: "rs \<noteq> []" "last rs = r" "\<not> 0 < r" "\<forall>n \<in> set (butlast rs). 0 < n"
        "length rs = Suc (length ds)"
      by (simp_all add: loop_trace_def loop_entry_def)
    from e(1,2) have rs: "rs = butlast rs @ [r]"
      by (metis append_butlast_last_id)
    show ?thesis
    proof (rule that [of "butlast rs" r ds])
      show "calls (snd (main w)) =
         calls (loop_entry w) @ map (Recv ?sock BUFFER_SIZE 0) (butlast rs @ [r])
           @ [Closesocket ?sock, WSACleanup]"
        using m res c rs by (simp add: teardown_result)
      show "\<forall>n \<in> set (butlast rs). 0 < n \<and> n \<le> int BUFFER_SIZE"
        using b e(4) by (meson in_set_butlastD)
      show "\<not> 0 < r" by (rule e(3))
      show "out (snd (main w)) =
         Printed msg_connected msg_connected # ds
           @ (if r = SOCKET_ERROR then [Printed msg_receive_failed msg_receive_failed] else [])"
        using m res o by (simp add: teardown_result)
      show "length ds = length (butlast rs)"
        using e(5) by simp
      show "\<forall>d \<in> set ds. format d = msg_received" by (rule d)
    qed
  qed
qed

subsection \<open>The receive results of a run\<close>

lemma received_append: "received (xs @ ys) = received xs @ received ys"
  by (induction xs rule: received.induct) auto

lemma received_recvs: "received (map (Recv s len fl) rs) = rs"
  by (induction rs) auto

lemma received_logged: "r \<in> set (received cs) \<Longrightarrow> \<exists>s len fl. Recv s len fl r \<in> set cs"
  by (induction cs rule: received.induct) auto

lemma received_returning_run:
  assumes "calls (snd (main w)) =
       calls (loop_entry w) @ map (Recv (socket_result w) BUFFER_SIZE 0) (rs @ [r])
         @ [Closesocket (socket_result w), WSACleanup]"
  shows "received (calls (snd (main w))) = rs @ [r]"
  unfolding assms by (simp add: received_append received_recvs loop_entry_def)

subsection \<open>The runs above\<close>

lemma connection_breaks_calls:
  "calls (snd (main connection_breaks)) =
     [WSAStartup (MAKEWORD 2 2) 0, Socket AF_INET SOCK_STREAM 0 3, Connect 3 server_addr 0,
      Recv 3 BUFFER_SIZE 0 2, Recv 3 BUFFER_SIZE 0 SOCKET_ERROR, Closesocket 3, WSACleanup]"
  by code_simp

lemma peer_closes_at_once_calls:
  "calls (snd (main peer_closes_at_once)) =
     [WSAStartup (MAKEWORD 2 2) 0, Socket AF_INET SOCK_STREAM 0 3, Connect 3 server_addr 0,
      Recv 3 BUFFER_SIZE 0 0, Closesocket 3, WSACleanup]"
  by code_simp

lemma hello_printed_from_clean_buffer:
  "fst (main clean_hello) = Returned 0
   \<and> map written (out (snd (main clean_hello))) =
       [''Connected to Gameboy emulator.\<newline>'',
        ''Received from Gameboy emulator: hello\<newline>'']"
  by code_simp

lemma kinds_determined_by_answers_example:
  "fst (main clean_hello) = fst (main stale_hello)
   \<and> map format (out (snd (main clean_hello))) = map format (out (snd (main stale_hello)))"
  by (rule kinds_determined_by_answers) (code_simp+)

lemma hello_runs_received:
  "received (calls (snd (main clean_hello))) = [5, 0]"
  "received (calls (snd (main stale_hello))) = [5, 0]"
  by code_simp+


section \<open>The claims\<close>

text \<open>
  C2: in every run in which \<^verbatim>\<open>connect\<close> fails, the program prints the
  connection-failure message and nothing else, returns exit code 1 and does not enter
  the receive loop: it makes no receive call and takes nothing from the connection.
\<close>

theorem connect_failure_exits_1:
  assumes "WSAStartup_result w = 0" and "socket_result w \<noteq> INVALID_SOCKET"
    and "connect_result w = SOCKET_ERROR"
  shows "fst (main w) = Returned 1
    \<and> out (snd (main w)) = [Printed msg_connect_failed msg_connect_failed]
    \<and> (\<forall>s len fl r. Recv s len fl r \<notin> set (calls (snd (main w))))
    \<and> net (snd (main w)) = inbound w"
proof -
  from assms(3) have "connect_result w < 0"
    by (simp add: SOCKET_ERROR_def)
  with assms(1,2) show ?thesis
    by (simp add: main_connect_failed)
qed

theorem connect_failure_exits_1_witness:
  "WSAStartup_result no_listener = 0 \<and> socket_result no_listener \<noteq> INVALID_SOCKET
   \<and> connect_result no_listener = SOCKET_ERROR
   \<and> fst (main no_listener) = Returned 1
   \<and> out (snd (main no_listener)) = [Printed msg_connect_failed msg_connect_failed]
   \<and> (\<forall>s len fl r. Recv s len fl r \<notin> set (calls (snd (main no_listener))))
   \<and> net (snd (main no_listener)) = inbound no_listener"
proof -
  have h: "WSAStartup_result no_listener = 0" "socket_result no_listener \<noteq> INVALID_SOCKET"
    "connect_result no_listener = SOCKET_ERROR"
    by (simp_all add: no_listener_def INVALID_SOCKET_def SOCKET_ERROR_def)
  from h connect_failure_exits_1 [OF h] show ?thesis
    by simp
qed

text \<open>
  C5: when \<^verbatim>\<open>WSAStartup\<close> fails, and when it succeeds but \<^verbatim>\<open>socket\<close> fails, the
  program prints one error message and returns exit code 1 at once. The final state
  shows that nothing else happened: the only library calls are the ones up to the
  failing call (no \<^verbatim>\<open>connect\<close>), the buffer and the connection are untouched.
\<close>

theorem init_or_socket_failure_exits_1:
  "(WSAStartup_result w \<noteq> 0 \<longrightarrow>
      main w = (Returned 1,
        \<lparr>buffer = stack w, out = [Printed msg_startup_failed msg_startup_failed],
         calls = [WSAStartup (MAKEWORD 2 2) (WSAStartup_result w)], net = inbound w\<rparr>))
   \<and> (WSAStartup_result w = 0 \<and> socket_result w = INVALID_SOCKET \<longrightarrow>
      main w = (Returned 1,
        \<lparr>buffer = stack w, out = [Printed msg_socket_failed msg_socket_failed],
         calls = [WSAStartup (MAKEWORD 2 2) 0, Socket AF_INET SOCK_STREAM 0 INVALID_SOCKET],
         net = inbound w\<rparr>))"
  by (simp add: main_startup_failed main_socket_failed)

theorem init_or_socket_failure_exits_1_witness:
  "WSAStartup_result no_winsock \<noteq> 0
   \<and> main no_winsock = (Returned 1,
        \<lparr>buffer = stack no_winsock, out = [Printed msg_startup_failed msg_startup_failed],
         calls = [WSAStartup (MAKEWORD 2 2) 10091], net = inbound no_winsock\<rparr>)
   \<and> WSAStartup_result no_socket = 0 \<and> socket_result no_socket = INVALID_SOCKET
   \<and> main no_socket = (Returned 1,
        \<lparr>buffer = stack no_socket, out = [Printed msg_socket_failed msg_socket_failed],
         calls = [WSAStartup (MAKEWORD 2 2) 0, Socket AF_INET SOCK_STREAM 0 INVALID_SOCKET],
         net = inbound no_socket\<rparr>)"
proof -
  have a: "WSAStartup_result no_winsock \<noteq> 0" "WSAStartup_result no_winsock = 10091"
    by (simp_all add: no_winsock_def)
  have b: "WSAStartup_result no_socket = 0 \<and> socket_result no_socket = INVALID_SOCKET"
    by (simp add: no_socket_def)
  from a b init_or_socket_failure_exits_1 [of no_winsock]
    init_or_socket_failure_exits_1 [of no_socket]
  show ?thesis
    by simp
qed

text \<open>
  C3: in every run in which a receive call returns \<^verbatim>\<open>SOCKET_ERROR\<close>, that call is the
  last receive call; the program then prints the receive-error message as its last
  message (after the connection message and the data messages), closes the socket,
  releases Winsock and returns exit code 0. A run in which a receive call returns 0,
  the peer's orderly close, returns exit code 0 as well.
\<close>

theorem receive_error_still_exits_0:
  "(Recv s len fl SOCKET_ERROR \<in> set (calls (snd (main w))) \<longrightarrow>
      fst (main w) = Returned 0
      \<and> (\<exists>cs. calls (snd (main w)) =
            cs @ [Recv (socket_result w) BUFFER_SIZE 0 SOCKET_ERROR,
                  Closesocket (socket_result w), WSACleanup])
      \<and> (\<exists>ds. out (snd (main w)) =
            Printed msg_connected msg_connected # ds
              @ [Printed msg_receive_failed msg_receive_failed]
            \<and> (\<forall>d \<in> set ds. format d = msg_received)))
   \<and> (Recv s len fl 0 \<in> set (calls (snd (main w))) \<longrightarrow> fst (main w) = Returned 0)"
proof (intro conjI impI)
  assume a: "Recv s len fl SOCKET_ERROR \<in> set (calls (snd (main w)))"
  have n: "\<not> 0 < SOCKET_ERROR"
    by (simp add: SOCKET_ERROR_def)
  from last_receive [OF a n] show "fst (main w) = Returned 0"
    and "\<exists>cs. calls (snd (main w)) =
            cs @ [Recv (socket_result w) BUFFER_SIZE 0 SOCKET_ERROR,
                  Closesocket (socket_result w), WSACleanup]"
    and "\<exists>ds. out (snd (main w)) =
            Printed msg_connected msg_connected # ds
              @ [Printed msg_receive_failed msg_receive_failed]
            \<and> (\<forall>d \<in> set ds. format d = msg_received)"
    by simp_all
next
  assume "Recv s len fl 0 \<in> set (calls (snd (main w)))"
  from last_receive [OF this] show "fst (main w) = Returned 0"
    by simp
qed

theorem receive_error_still_exits_0_witness:
  "Recv 3 BUFFER_SIZE 0 SOCKET_ERROR \<in> set (calls (snd (main connection_breaks)))
   \<and> fst (main connection_breaks) = Returned 0
   \<and> (\<exists>cs. calls (snd (main connection_breaks)) =
         cs @ [Recv (socket_result connection_breaks) BUFFER_SIZE 0 SOCKET_ERROR,
               Closesocket (socket_result connection_breaks), WSACleanup])
   \<and> (\<exists>ds. out (snd (main connection_breaks)) =
         Printed msg_connected msg_connected # ds
           @ [Printed msg_receive_failed msg_receive_failed]
         \<and> (\<forall>d \<in> set ds. format d = msg_received))
   \<and> Recv 3 BUFFER_SIZE 0 0 \<in> set (calls (snd (main peer_closes_at_once)))
   \<and> fst (main peer_closes_at_once) = Returned 0"
proof -
  have a: "Recv 3 BUFFER_SIZE 0 SOCKET_ERROR \<in> set (calls (snd (main connection_breaks)))"
    by (simp add: connection_breaks_calls)
  have b: "Recv 3 BUFFER_SIZE 0 0 \<in> set (calls (snd (main peer_closes_at_once)))"
    by (simp add: peer_closes_at_once_calls)
  from a b receive_error_still_exits_0 [of 3 BUFFER_SIZE 0 connection_breaks]
    receive_error_still_exits_0 [of 3 BUFFER_SIZE 0 peer_closes_at_once]
  show ?thesis
    by blast
qed

text \<open>
  C4: when the connection is established and the first receive call returns 0, the
  program prints the connection message and nothing else, makes no further receive
  call, tears down and returns exit code 0.
\<close>

theorem immediate_close_prints_only_connected:
  assumes "WSAStartup_result w = 0" and "socket_result w \<noteq> INVALID_SOCKET"
    and "connect_result w = 0"
    and "recv (inbound w) (stack w) BUFFER_SIZE = Some (0, buf, es)"
  shows "fst (main w) = Returned 0
    \<and> out (snd (main w)) = [Printed msg_connected msg_connected]
    \<and> calls (snd (main w)) =
        [WSAStartup (MAKEWORD 2 2) 0, Socket AF_INET SOCK_STREAM 0 (socket_result w),
         Connect (socket_result w) server_addr 0, Recv (socket_result w) BUFFER_SIZE 0 0,
         Closesocket (socket_result w), WSACleanup]"
proof -
  have "recv (net (loop_entry w)) (buffer (loop_entry w)) BUFFER_SIZE = Some (0, buf, es)"
    using assms(4) by (simp add: loop_entry_def)
  then have "recv_loop (socket_result w) (loop_entry w) =
      (Exited 0, (loop_entry w)\<lparr>buffer := buf, net := es,
         calls := calls (loop_entry w) @ [Recv (socket_result w) BUFFER_SIZE 0 0]\<rparr>)"
    by (rule recv_loop_unfold_exit) simp
  with assms(1-3) show ?thesis
    by (simp add: main_connected teardown_result loop_entry_def SOCKET_ERROR_def)
qed

theorem immediate_close_prints_only_connected_witness:
  "WSAStartup_result peer_closes_at_once = 0
   \<and> socket_result peer_closes_at_once \<noteq> INVALID_SOCKET
   \<and> connect_result peer_closes_at_once = 0
   \<and> recv (inbound peer_closes_at_once) (stack peer_closes_at_once) BUFFER_SIZE
       = Some (0, replicate 256 NUL, [Close])
   \<and> fst (main peer_closes_at_once) = Returned 0
   \<and> out (snd (main peer_closes_at_once)) = [Printed msg_connected msg_connected]
   \<and> calls (snd (main peer_closes_at_once)) =
        [WSAStartup (MAKEWORD 2 2) 0, Socket AF_INET SOCK_STREAM 0 3,
         Connect 3 server_addr 0, Recv 3 BUFFER_SIZE 0 0, Closesocket 3, WSACleanup]"
proof -
  have h: "WSAStartup_result peer_closes_at_once = 0"
    "socket_result peer_closes_at_once \<noteq> INVALID_SOCKET"
    "connect_result peer_closes_at_once = 0"
    "recv (inbound peer_closes_at_once) (stack peer_closes_at_once) BUFFER_SIZE
       = Some (0, replicate 256 NUL, [Close])"
    by (simp_all add: peer_closes_at_once_def INVALID_SOCKET_def)
  have s: "socket_result peer_closes_at_once = 3"
    by (simp add: peer_closes_at_once_def)
  from h immediate_close_prints_only_connected [OF h] show ?thesis
    by (simp add: s)
qed

text \<open>
  C6: on the path on which \<^verbatim>\<open>WSAStartup\<close> and \<^verbatim>\<open>socket\<close> succeed and \<^verbatim>\<open>connect\<close>
  fails, the program returns exit code 1 after the three calls, with neither
  \<^verbatim>\<open>closesocket\<close> nor \<^verbatim>\<open>WSACleanup\<close>. In any run, a \<^verbatim>\<open>closesocket\<close> or \<^verbatim>\<open>WSACleanup\<close>
  call comes with a receive call: the teardown is reached through the loop only.
\<close>

theorem connect_failure_skips_teardown:
  "(WSAStartup_result w = 0 \<and> socket_result w \<noteq> INVALID_SOCKET
      \<and> connect_result w = SOCKET_ERROR \<longrightarrow>
      fst (main w) = Returned 1
      \<and> calls (snd (main w)) =
          [WSAStartup (MAKEWORD 2 2) 0, Socket AF_INET SOCK_STREAM 0 (socket_result w),
           Connect (socket_result w) server_addr SOCKET_ERROR]
      \<and> (\<forall>s. Closesocket s \<notin> set (calls (snd (main w))))
      \<and> WSACleanup \<notin> set (calls (snd (main w))))
   \<and> ((\<exists>s. Closesocket s \<in> set (calls (snd (main w)))) \<or> WSACleanup \<in> set (calls (snd (main w)))
      \<longrightarrow> (\<exists>s len fl r. Recv s len fl r \<in> set (calls (snd (main w)))))"
proof (intro conjI impI)
  assume a: "WSAStartup_result w = 0 \<and> socket_result w \<noteq> INVALID_SOCKET
      \<and> connect_result w = SOCKET_ERROR"
  then have m: "main w = (Returned 1,
     \<lparr>buffer = stack w, out = [Printed msg_connect_failed msg_connect_failed],
      calls = [WSAStartup (MAKEWORD 2 2) 0, Socket AF_INET SOCK_STREAM 0 (socket_result w),
               Connect (socket_result w) server_addr (connect_result w)],
      net = inbound w\<rparr>)"
    by (intro main_connect_failed) (simp_all add: SOCKET_ERROR_def)
  from m show "fst (main w) = Returned 1"
    by simp
  from m a show "calls (snd (main w)) =
          [WSAStartup (MAKEWORD 2 2) 0, Socket AF_INET SOCK_STREAM 0 (socket_result w),
           Connect (socket_result w) server_addr SOCKET_ERROR]"
    by simp
  from m show "\<forall>s. Closesocket s \<notin> set (calls (snd (main w)))"
    by simp
  from m show "WSACleanup \<notin> set (calls (snd (main w)))"
    by simp
next
  assume t: "(\<exists>s. Closesocket s \<in> set (calls (snd (main w))))
    \<or> WSACleanup \<in> set (calls (snd (main w)))"
  from main_calls [of w] consider
      "calls (snd (main w)) = take 1 (calls (loop_entry w))"
    | "calls (snd (main w)) = take 2 (calls (loop_entry w))"
    | rs where "calls (snd (main w)) =
          calls (loop_entry w) @ map (Recv (socket_result w) BUFFER_SIZE 0) rs"
    | rs where "rs \<noteq> []" "calls (snd (main w)) =
          calls (loop_entry w) @ map (Recv (socket_result w) BUFFER_SIZE 0) rs
            @ [Closesocket (socket_result w), WSACleanup]"
    by blast
  then show "\<exists>s len fl r. Recv s len fl r \<in> set (calls (snd (main w)))"
  proof cases
    case 1
    with t show ?thesis by (simp add: loop_entry_def)
  next
    case 2
    with t show ?thesis by (simp add: loop_entry_def)
  next
    case (3 rs)
    with t show ?thesis by (auto simp: loop_entry_def)
  next
    case (4 rs)
    then obtain r rs' where "rs = r # rs'"
      by (cases rs) auto
    with 4(2) have "Recv (socket_result w) BUFFER_SIZE 0 r \<in> set (calls (snd (main w)))"
      by simp
    then show ?thesis by blast
  qed
qed

theorem connect_failure_skips_teardown_witness:
  "WSAStartup_result no_listener = 0 \<and> socket_result no_listener \<noteq> INVALID_SOCKET
   \<and> connect_result no_listener = SOCKET_ERROR
   \<and> fst (main no_listener) = Returned 1
   \<and> calls (snd (main no_listener)) =
       [WSAStartup (MAKEWORD 2 2) 0, Socket AF_INET SOCK_STREAM 0 (socket_result no_listener),
        Connect (socket_result no_listener) server_addr SOCKET_ERROR]
   \<and> (\<forall>s. Closesocket s \<notin> set (calls (snd (main no_listener))))
   \<and> WSACleanup \<notin> set (calls (snd (main no_listener)))
   \<and> WSACleanup \<in> set (calls (snd (main peer_closes_at_once)))
   \<and> (\<exists>s len fl r. Recv s len fl r \<in> set (calls (snd (main peer_closes_at_once))))"
proof -
  have a: "WSAStartup_result no_listener = 0 \<and> socket_result no_listener \<noteq> INVALID_SOCKET
     \<and> connect_result no_listener = SOCKET_ERROR"
    by (simp add: no_listener_def INVALID_SOCKET_def SOCKET_ERROR_def)
  have b: "WSACleanup \<in> set (calls (snd (main peer_closes_at_once)))"
    by (simp add: peer_closes_at_once_calls)
  from a b connect_failure_skips_teardown [of no_listener]
    connect_failure_skips_teardown [of peer_closes_at_once]
  show ?thesis
    by blast
qed

text \<open>
  C7: \<^verbatim>\<open>main\<close> has no argument; the model's only input is what the operating system
  answers. Whatever it answers, every \<^verbatim>\<open>connect\<close> call of a run is made with the one
  address structure \<open>server_addr\<close>: family \<^verbatim>\<open>AF_INET\<close>, the address bytes 127.0.0.1,
  port 12345 in network byte order, on a socket created as
  \<^verbatim>\<open>socket(AF_INET, SOCK_STREAM, 0)\<close>.
\<close>

theorem connect_targets_fixed_endpoint:
  "Connect s a r \<in> set (calls (snd (main w))) \<longrightarrow>
     a = server_addr
     \<and> sin_family a = AF_INET \<and> addr_bytes (sin_addr a) = [127, 0, 0, 1]
     \<and> ntohs (sin_port a) = 12345
     \<and> Socket AF_INET SOCK_STREAM 0 s \<in> set (calls (snd (main w)))"
proof
  assume c: "Connect s a r \<in> set (calls (snd (main w)))"
  from main_calls [of w] consider
      "calls (snd (main w)) = take 1 (calls (loop_entry w))"
    | "calls (snd (main w)) = take 2 (calls (loop_entry w))"
    | rs where "calls (snd (main w)) =
          calls (loop_entry w) @ map (Recv (socket_result w) BUFFER_SIZE 0) rs"
    | rs where "rs \<noteq> []" "calls (snd (main w)) =
          calls (loop_entry w) @ map (Recv (socket_result w) BUFFER_SIZE 0) rs
            @ [Closesocket (socket_result w), WSACleanup]"
    by blast
  then have "a = server_addr \<and> Socket AF_INET SOCK_STREAM 0 s \<in> set (calls (snd (main w)))"
  proof cases
    case 1
    with c show ?thesis by (simp add: loop_entry_def)
  next
    case 2
    with c show ?thesis by (simp add: loop_entry_def)
  next
    case (3 rs)
    with c show ?thesis by (auto simp: loop_entry_def)
  next
    case (4 rs)
    with c show ?thesis by (auto simp: loop_entry_def)
  qed
  with server_addr_endpoint show "a = server_addr
     \<and> sin_family a = AF_INET \<and> addr_bytes (sin_addr a) = [127, 0, 0, 1]
     \<and> ntohs (sin_port a) = 12345
     \<and> Socket AF_INET SOCK_STREAM 0 s \<in> set (calls (snd (main w)))"
    by simp
qed

theorem connect_targets_fixed_endpoint_witness:
  "Connect 3 server_addr 0 \<in> set (calls (snd (main peer_closes_at_once)))
   \<and> sin_family server_addr = AF_INET \<and> addr_bytes (sin_addr server_addr) = [127, 0, 0, 1]
   \<and> ntohs (sin_port server_addr) = 12345
   \<and> Socket AF_INET SOCK_STREAM 0 3 \<in> set (calls (snd (main peer_closes_at_once)))"
proof -
  have c: "Connect 3 server_addr 0 \<in> set (calls (snd (main peer_closes_at_once)))"
    by (simp add: peer_closes_at_once_calls)
  from c connect_targets_fixed_endpoint [of 3 server_addr 0 peer_closes_at_once]
  show ?thesis
    by blast
qed

text \<open>
  C1: the claim is that, when the peer sends \<^verbatim>\<open>hello\<close> and closes, the program prints
  the connection message, then \<^verbatim>\<open>hello\<close>, and returns exit code 0. The program prints
  the buffer up to its first NUL byte and never writes one, so what follows
  \<^verbatim>\<open>hello\<close> is whatever the array held before. In the run \<open>stale_hello\<close> the array
  held two other bytes at indices 5 and 6: the data message is \<^verbatim>\<open>hello!!\<close>.
\<close>

theorem hello_printed_with_stale_bytes:
  "inbound stale_hello = [Chunk ''hello'', Close]
   \<and> fst (main stale_hello) = Returned 0
   \<and> map written (out (snd (main stale_hello))) =
       [''Connected to Gameboy emulator.\<newline>'',
        ''Received from Gameboy emulator: hello!!\<newline>'']"
  by code_simp

text \<open>
  C8: the claim is that every chunk of at most 256 bytes is printed as a message of
  its own, in the order of arrival. A chunk of 256 bytes without a NUL byte fills the
  whole array, and \<^verbatim>\<open>printf\<close> then reads past its end: in the run \<open>full_chunk\<close>
  the receive call returns 256 and no data message is defined.
\<close>

theorem full_chunk_overruns_buffer:
  "fst (main full_chunk) = Undefined
   \<and> out (snd (main full_chunk)) = [Printed msg_connected msg_connected]
   \<and> calls (snd (main full_chunk)) =
       [WSAStartup (MAKEWORD 2 2) 0, Socket AF_INET SOCK_STREAM 0 3, Connect 3 server_addr 0,
        Recv 3 BUFFER_SIZE 0 256]"
  by code_simp

text \<open>
  C9: two runs that get the same answers from \<^verbatim>\<open>WSAStartup\<close>, \<^verbatim>\<open>socket\<close> and
  \<^verbatim>\<open>connect\<close>, and in which the receive calls return the same values in the same
  order, the close or the error among them when the loop is entered, print messages
  of the same kinds in the same order and end with the same exit status. Nothing is
  assumed about the contents of the array at the start, nor about the bytes of the
  chunks: the kinds of the messages do not depend on them.
\<close>

theorem same_answers_same_messages:
  assumes "WSAStartup_result w1 = WSAStartup_result w2"
    and "socket_result w1 = socket_result w2"
    and "connect_result w1 = connect_result w2"
    and "received (calls (snd (main w1))) = received (calls (snd (main w2)))"
    and "WSAStartup_result w1 \<noteq> 0 \<or> socket_result w1 = INVALID_SOCKET \<or> connect_result w1 < 0
      \<or> (\<exists>r \<in> set (received (calls (snd (main w1)))). \<not> 0 < r)"
  shows "fst (main w1) = fst (main w2)
    \<and> map format (out (snd (main w1))) = map format (out (snd (main w2)))"
proof -
  consider "WSAStartup_result w1 \<noteq> 0"
    | "WSAStartup_result w1 = 0" "socket_result w1 = INVALID_SOCKET"
    | "WSAStartup_result w1 = 0" "socket_result w1 \<noteq> INVALID_SOCKET" "connect_result w1 < 0"
    | "WSAStartup_result w1 = 0" "socket_result w1 \<noteq> INVALID_SOCKET" "\<not> connect_result w1 < 0"
    by blast
  then show ?thesis
  proof cases
    case 1
    with assms(1) show ?thesis by (simp add: main_startup_failed)
  next
    case 2
    with assms(1,2) show ?thesis by (simp add: main_socket_failed)
  next
    case 3
    with assms(1-3) show ?thesis by (simp add: main_connect_failed)
  next
    case 4
    with assms(5) obtain r where r: "r \<in> set (received (calls (snd (main w1))))" "\<not> 0 < r"
      by auto
    from r(1) obtain s len fl where "Recv s len fl r \<in> set (calls (snd (main w1)))"
      using received_logged by blast
    from last_receive [OF this r(2)] have e1: "fst (main w1) = Returned 0"
      by simp
    from r(1) assms(4) obtain s' len' fl' where "Recv s' len' fl' r \<in> set (calls (snd (main w2)))"
      using received_logged by metis
    from last_receive [OF this r(2)] have e2: "fst (main w2) = Returned 0"
      by simp
    from e1 obtain rs1 r1 ds1 where t1:
      "calls (snd (main w1)) =
         calls (loop_entry w1) @ map (Recv (socket_result w1) BUFFER_SIZE 0) (rs1 @ [r1])
           @ [Closesocket (socket_result w1), WSACleanup]"
      "out (snd (main w1)) =
         Printed msg_connected msg_connected # ds1
           @ (if r1 = SOCKET_ERROR then [Printed msg_receive_failed msg_receive_failed] else [])"
      "length ds1 = length rs1" "\<forall>d \<in> set ds1. format d = msg_received"
      by (rule returning_run_messages)
    from e2 obtain rs2 r2 ds2 where t2:
      "calls (snd (main w2)) =
         calls (loop_entry w2) @ map (Recv (socket_result w2) BUFFER_SIZE 0) (rs2 @ [r2])
           @ [Closesocket (socket_result w2), WSACleanup]"
      "out (snd (main w2)) =
         Printed msg_connected msg_connected # ds2
           @ (if r2 = SOCKET_ERROR then [Printed msg_receive_failed msg_receive_failed] else [])"
      "length ds2 = length rs2" "\<forall>d \<in> set ds2. format d = msg_received"
      by (rule returning_run_messages)
    from received_returning_run [OF t1(1)] received_returning_run [OF t2(1)] assms(4)
    have same: "rs1 = rs2" "r1 = r2"
      by simp_all
    from t1(4) have f1: "map format ds1 = replicate (length ds1) msg_received"
      by (rule formats_received)
    from t2(4) have f2: "map format ds2 = replicate (length ds2) msg_received"
      by (rule formats_received)
    from e1 e2 t1(2,3) t2(2,3) same f1 f2 show ?thesis
      by simp
  qed
qed

theorem same_answers_same_messages_witness:
  "WSAStartup_result clean_hello = WSAStartup_result stale_hello
   \<and> socket_result clean_hello = socket_result stale_hello
   \<and> connect_result clean_hello = connect_result stale_hello
   \<and> received (calls (snd (main clean_hello))) = received (calls (snd (main stale_hello)))
   \<and> 0 \<in> set (received (calls (snd (main clean_hello))))
   \<and> stack clean_hello \<noteq> stack stale_hello
   \<and> fst (main clean_hello) = fst (main stale_hello)
   \<and> map format (out (snd (main clean_hello))) = map format (out (snd (main stale_hello)))"
proof -
  have a: "WSAStartup_result clean_hello = WSAStartup_result stale_hello"
    "socket_result clean_hello = socket_result stale_hello"
    "connect_result clean_hello = connect_result stale_hello"
    by (simp_all add: clean_hello_def stale_hello_def)
  have b: "received (calls (snd (main clean_hello))) = received (calls (snd (main stale_hello)))"
    by (simp add: hello_runs_received)
  have c: "0 \<in> set (received (calls (snd (main clean_hello))))"
    by (simp add: hello_runs_received)
  then have d: "WSAStartup_result clean_hello \<noteq> 0 \<or> socket_result clean_hello = INVALID_SOCKET
      \<or> connect_result clean_hello < 0
      \<or> (\<exists>r \<in> set (received (calls (snd (main clean_hello)))). \<not> 0 < r)"
    by auto
  have e: "stack clean_hello \<noteq> stack stale_hello"
    by code_simp
  from a b c e same_answers_same_messages [OF a b d] show ?thesis
    by simp
qed

text \<open>
  C10: a data message is not bounded by the number of bytes received. When a chunk
  \<open>bs\<close> without a NUL byte is received (of at most 256 bytes, into any buffer, so in
  any iteration), the message holds \<open>bs\<close> followed by the bytes that the buffer held
  behind the first \<open>length bs\<close> ones, up to the first NUL byte among them: bytes of
  an earlier chunk, or of the uninitialised array. When there is no NUL byte among
  them, \<^verbatim>\<open>printf\<close> reads past the end of the array.
\<close>

theorem data_message_not_length_bounded:
  assumes "net st = Chunk bs # es" and "bs \<noteq> []" and "length bs \<le> BUFFER_SIZE"
    and "NUL \<notin> set bs"
  shows "(NUL \<in> set (drop (length bs) (buffer st)) \<longrightarrow>
      (\<exists>more. out (snd (recv_loop sock st)) =
         out st @ Printed msg_received
           (''Received from Gameboy emulator: '' @ bs
              @ takeWhile (\<lambda>c. c \<noteq> NUL) (drop (length bs) (buffer st)) @ ''\<newline>'') # more))
    \<and> (NUL \<notin> set (drop (length bs) (buffer st)) \<longrightarrow>
      fst (recv_loop sock st) = Printf_overrun)"
proof -
  let ?rest = "drop (length bs) (buffer st)"
  have pos: "0 < int (length bs)"
    using assms(2) by simp
  obtain b bs' where "bs = b # bs'"
    using assms(2) by (cases bs) auto
  then have r: "recv (net st) (buffer st) BUFFER_SIZE = Some (int (length bs), bs @ ?rest, es)"
    using assms(1,3) by (simp add: Let_def)
  show ?thesis
  proof (intro conjI impI)
    assume "NUL \<in> set ?rest"
    moreover have "x \<noteq> NUL" if "x \<in> set bs" for x
      using that assms(4) by auto
    then have "takeWhile (\<lambda>c. c \<noteq> NUL) (bs @ ?rest) = bs @ takeWhile (\<lambda>c. c \<noteq> NUL) ?rest"
      by (rule takeWhile_append2)
    ultimately have c: "cstring (bs @ ?rest) = Some (bs @ takeWhile (\<lambda>c. c \<noteq> NUL) ?rest)"
      by (simp add: cstring_def)
    let ?d = "Printed msg_received (subst_s msg_received (bs @ takeWhile (\<lambda>c. c \<noteq> NUL) ?rest))"
    let ?st = "st\<lparr>buffer := bs @ ?rest, net := es,
           calls := calls st @ [Recv sock BUFFER_SIZE 0 (int (length bs))],
           out := out st @ [?d]\<rparr>"
    have "recv_loop sock st = recv_loop sock ?st"
      using r pos c by (rule recv_loop_unfold_data)
    moreover obtain rs ds where "loop_trace sock ?st rs ds"
      using recv_loop_trace by blast
    ultimately have "out (snd (recv_loop sock st)) = out st @ ?d # ds"
      by (simp add: loop_trace_def)
    then show "\<exists>more. out (snd (recv_loop sock st)) =
         out st @ Printed msg_received
           (''Received from Gameboy emulator: '' @ bs
              @ takeWhile (\<lambda>c. c \<noteq> NUL) ?rest @ ''\<newline>'') # more"
      by (simp add: subst_received)
  next
    assume "NUL \<notin> set ?rest"
    then have "cstring (bs @ ?rest) = None"
      using assms(4) by (simp add: cstring_def)
    with r pos show "fst (recv_loop sock st) = Printf_overrun"
      by (simp add: recv_loop_unfold_overrun)
  qed
qed

theorem data_message_not_length_bounded_witness:
  "net second_shorter = Chunk ''hi'' # [Close] \<and> ''hi'' \<noteq> [] \<and> length ''hi'' \<le> BUFFER_SIZE
   \<and> NUL \<notin> set ''hi'' \<and> NUL \<in> set (drop (length ''hi'') (buffer second_shorter))
   \<and> (\<exists>more. out (snd (recv_loop 3 second_shorter)) =
         out second_shorter
           @ Printed msg_received ''Received from Gameboy emulator: hillo world\<newline>'' # more)
   \<and> net (loop_entry stale_hello) = Chunk ''hello'' # [Close]
   \<and> NUL \<in> set (drop (length ''hello'') (buffer (loop_entry stale_hello)))
   \<and> (\<exists>more. out (snd (recv_loop 3 (loop_entry stale_hello))) =
         out (loop_entry stale_hello)
           @ Printed msg_received ''Received from Gameboy emulator: hello!!\<newline>'' # more)
   \<and> net (loop_entry garbage_hello) = Chunk ''hello'' # [Close]
   \<and> NUL \<notin> set (drop (length ''hello'') (buffer (loop_entry garbage_hello)))
   \<and> fst (recv_loop 3 (loop_entry garbage_hello)) = Printf_overrun"
proof -
  have a: "net second_shorter = Chunk ''hi'' # [Close]" "''hi'' \<noteq> []"
    "length ''hi'' \<le> BUFFER_SIZE" "NUL \<notin> set ''hi''"
    by (simp_all add: second_shorter_def BUFFER_SIZE_def NUL_def)
  have a5: "NUL \<in> set (drop (length ''hi'') (buffer second_shorter))"
    by code_simp
  have at: "takeWhile (\<lambda>c. c \<noteq> NUL) (drop (length ''hi'') (buffer second_shorter)) = ''llo world''"
    by code_simp
  have b: "net (loop_entry stale_hello) = Chunk ''hello'' # [Close]" "''hello'' \<noteq> []"
    "length ''hello'' \<le> BUFFER_SIZE" "NUL \<notin> set ''hello''"
    by (simp_all add: loop_entry_def stale_hello_def BUFFER_SIZE_def NUL_def)
  have b5: "NUL \<in> set (drop (length ''hello'') (buffer (loop_entry stale_hello)))"
    by code_simp
  have bt: "takeWhile (\<lambda>c. c \<noteq> NUL) (drop (length ''hello'') (buffer (loop_entry stale_hello)))
      = ''!!''"
    by code_simp
  have c: "net (loop_entry garbage_hello) = Chunk ''hello'' # [Close]"
    by (simp add: loop_entry_def garbage_hello_def)
  have c5: "NUL \<notin> set (drop (length ''hello'') (buffer (loop_entry garbage_hello)))"
    by code_simp
  have 1: "\<exists>more. out (snd (recv_loop 3 second_shorter)) =
         out second_shorter
           @ Printed msg_received ''Received from Gameboy emulator: hillo world\<newline>'' # more"
    using data_message_not_length_bounded [OF a, of 3] a5 at by simp
  have 2: "\<exists>more. out (snd (recv_loop 3 (loop_entry stale_hello))) =
         out (loop_entry stale_hello)
           @ Printed msg_received ''Received from Gameboy emulator: hello!!\<newline>'' # more"
    using data_message_not_length_bounded [OF b, of 3] b5 bt by simp
  have 3: "fst (recv_loop 3 (loop_entry garbage_hello)) = Printf_overrun"
    using data_message_not_length_bounded [OF c b(2-4), of 3] c5 by simp
  from a a5 b(1) b5 c c5 1 2 3 show ?thesis
    by simp
qed

end
